theory Spec2Isabelle
  imports Complex_Main
begin

section \<open>Values shared by the embedding of train\_gpt2.py\<close>

text \<open>
  The embedding covers the parts of the file that decide on data, names, shapes and
  errors: the data loader, the construction of the model with its weight tying and
  initialization pass, the alignment of a pretrained checkpoint, and the token selection
  of the generation loop. The forward pass (lines 22--37, 47--51, 62--65 and 104--122)
  computes with floating-point tensors and is not embedded.
\<close>

text \<open>
  Every \<^verbatim>\<open>raise\<close>, failed \<^verbatim>\<open>assert\<close> and library error of the Python source is a
  value of this type; a function that can fail returns \<open>error + 'a\<close>, with \<open>Inl\<close> the
  error.
\<close>

datatype error =
    AssertionError
  | NameError string
  | AttributeError string
  | KeyError string
  | ZeroDivisionError
  | FileNotFoundError
  | RuntimeError

text \<open>
  A torch tensor: its shape and its elements in row-major order. The element type is a
  parameter: token ids are \<open>int\<close>, and the alignment code only moves elements around.
\<close>

record 'a tensor =
  shape :: "nat list"
  elems :: "'a list"

section \<open>DataLoaderLite (lines 179--205)\<close>

text \<open>
  Python slicing \<^verbatim>\<open>xs[lo:hi]\<close> of a sequence of length \<open>n\<close> with step 1: a negative
  bound counts from the end, and every bound is clamped into \<open>0..n\<close>. A missing bound is
  \<open>None\<close>.
\<close>

definition slice_bound :: "int \<Rightarrow> int \<Rightarrow> nat" where
  "slice_bound n i = nat (if i < 0 then max (n + i) 0 else min i n)"

definition py_slice :: "'a list \<Rightarrow> int option \<Rightarrow> int option \<Rightarrow> 'a list" where
  "py_slice xs lo hi =
     (let n = int (length xs);
          l = (case lo of None \<Rightarrow> 0 | Some i \<Rightarrow> slice_bound n i);
          h = (case hi of None \<Rightarrow> length xs | Some i \<Rightarrow> slice_bound n i)
      in take (h - l) (drop l xs))"

text \<open>
  \<^verbatim>\<open>t.view(b, t)\<close> of a one-dimensional tensor: the two sizes must multiply to the number
  of elements; one size may be \<open>-1\<close> and is then inferred; any other negative size, or
  sizes that do not fit, raise a RuntimeError. The elements stay in place.
\<close>

definition view2 :: "'a list \<Rightarrow> int \<Rightarrow> int \<Rightarrow> error + 'a tensor" where
  "view2 xs b t =
     (let n = int (length xs) in
      if b = -1 \<and> t = -1 then Inl RuntimeError
      else if b = -1 then
        (if 0 < t \<and> n mod t = 0
         then Inr \<lparr>shape = [nat (n div t), nat t], elems = xs\<rparr>
         else Inl RuntimeError)
      else if t = -1 then
        (if 0 < b \<and> n mod b = 0
         then Inr \<lparr>shape = [nat b, nat (n div b)], elems = xs\<rparr>
         else Inl RuntimeError)
      else if b < 0 \<or> t < 0 then Inl RuntimeError
      else if b * t = n then Inr \<lparr>shape = [nat b, nat t], elems = xs\<rparr>
      else Inl RuntimeError)"

record DataLoaderLite =
  B :: int
  T :: int
  tokens :: "int list"
  current_position :: int

text \<open>
  \<^verbatim>\<open>DataLoaderLite.__init__\<close> (lines 180--194). The file system (a map from paths to
  contents) and the tokenizer \<^verbatim>\<open>enc.encode\<close> are parameters. The constructor reads
  \<^verbatim>\<open>input.txt\<close>, tokenizes it, prints the token count and
  \<^verbatim>\<open>len(self.tokens) // (B * T)\<close> (line 191, which divides by zero when \<open>B * T = 0\<close>)
  and sets the cursor to 0. It compares the corpus length with nothing.
\<close>

definition DataLoaderLite_init ::
  "(string \<rightharpoonup> string) \<Rightarrow> (string \<Rightarrow> int list) \<Rightarrow> int \<Rightarrow> int \<Rightarrow> error + DataLoaderLite" where
  "DataLoaderLite_init fs encode b t =
     (case fs ''input.txt'' of
        None \<Rightarrow> Inl FileNotFoundError
      | Some content \<Rightarrow>
          (let toks = encode content in
           if b * t = 0 then Inl ZeroDivisionError
           else Inr \<lparr>B = b, T = t, tokens = toks, current_position = 0\<rparr>))"

text \<open>
  \<^verbatim>\<open>DataLoaderLite.next_batch\<close> (lines 196--205). The two \<^verbatim>\<open>view\<close> calls come before
  the cursor is moved, so a call that raises leaves the loader as it was.
\<close>

definition next_batch ::
  "DataLoaderLite \<Rightarrow> error + (int tensor \<times> int tensor \<times> DataLoaderLite)" where
  "next_batch s =
     (let b = B s; t = T s;
          buf = py_slice (tokens s) (Some (current_position s))
                  (Some (current_position s + b * t + 1))
      in case view2 (py_slice buf None (Some (- 1))) b t of
           Inl e \<Rightarrow> Inl e
         | Inr x \<Rightarrow>
           (case view2 (py_slice buf (Some 1) None) b t of
              Inl e \<Rightarrow> Inl e
            | Inr y \<Rightarrow>
              (let pos = current_position s + b * t;
                   pos' = (if pos + (b * t + 1) > int (length (tokens s)) then 0 else pos)
               in Inr (x, y, s\<lparr>current_position := pos'\<rparr>))))"

text \<open>
  \<open>n\<close> calls of \<^verbatim>\<open>next_batch\<close> in a row, as the training loop makes them (lines
  234--235), keeping only the loader.
\<close>

fun next_batch_times :: "nat \<Rightarrow> DataLoaderLite \<Rightarrow> error + DataLoaderLite" where
  "next_batch_times 0 s = Inr s"
| "next_batch_times (Suc n) s =
     (case next_batch s of
        Inl e \<Rightarrow> Inl e
      | Inr (x, y, s') \<Rightarrow> next_batch_times n s')"

text \<open>The cursor leaves room for a whole window of \<open>B * T + 1\<close> tokens.\<close>

definition cursor_ok :: "DataLoaderLite \<Rightarrow> bool" where
  "cursor_ok s =
     (0 \<le> current_position s \<and>
      current_position s + B s * T s + 1 \<le> int (length (tokens s)))"

section \<open>The sampling step (lines 273--279)\<close>

text \<open>
  The rows of a tensor along its last axis: the consecutive runs of \<open>v\<close> elements, \<open>v\<close>
  the size of that axis. A tensor without axes is one row.
\<close>

definition tensor_rows :: "'a tensor \<Rightarrow> 'a list list" where
  "tensor_rows p =
     (case rev (shape p) of
        [] \<Rightarrow> [elems p]
      | v # lead \<Rightarrow> map (\<lambda>i. take v (drop (i * v) (elems p))) [0..<prod_list lead])"

text \<open>
  \<^verbatim>\<open>torch.topk(input, k, dim=-1)\<close>: the \<open>k\<close> largest entries of every row and their
  positions in the row, largest first. It raises a RuntimeError when \<open>k\<close> is larger than
  the size of the last axis; it does not lower \<open>k\<close>. The code passes a matrix; a tensor
  without axes is reported as an error here.
\<close>

definition topk_row :: "'a::linorder list \<Rightarrow> nat \<Rightarrow> 'a list \<times> nat list" where
  "topk_row xs k =
     (let idx = take k (rev (sort_key (\<lambda>i. xs ! i) [0..<length xs]))
      in (map (\<lambda>i. xs ! i) idx, idx))"

definition topk :: "'a::linorder tensor \<Rightarrow> nat \<Rightarrow> error + ('a tensor \<times> nat tensor)" where
  "topk p k =
     (case rev (shape p) of
        [] \<Rightarrow> Inl RuntimeError
      | v # lead \<Rightarrow>
          if v < k then Inl RuntimeError
          else
            (let rs = map (\<lambda>r. topk_row r k) (tensor_rows p);
                 sh = rev lead @ [k]
             in Inr (\<lparr>shape = sh, elems = concat (map fst rs)\<rparr>,
                     \<lparr>shape = sh, elems = concat (map snd rs)\<rparr>)))"

text \<open>
  \<^verbatim>\<open>torch.multinomial(w, 1)\<close> draws one position per row of weights. The draw is the
  random generator's: \<open>draw\<close>, a parameter, stands for it.
\<close>

definition multinomial :: "('a list \<Rightarrow> nat) \<Rightarrow> 'a tensor \<Rightarrow> nat tensor" where
  "multinomial draw w =
     \<lparr>shape = butlast (shape w) @ [1], elems = map draw (tensor_rows w)\<rparr>"

text \<open>
  \<^verbatim>\<open>torch.gather(t, -1, ix)\<close> with one index per row: the entry of each row at its
  index; an index outside the row is a RuntimeError.
\<close>

definition gather_last :: "'a tensor \<Rightarrow> nat tensor \<Rightarrow> error + 'a tensor" where
  "gather_last t ix =
     (let rs = tensor_rows t
      in if length (elems ix) \<noteq> length rs
            \<or> list_ex (\<lambda>(r, i). length r \<le> i) (zip rs (elems ix))
         then Inl RuntimeError
         else Inr \<lparr>shape = shape ix, elems = map (\<lambda>(r, i). r ! i) (zip rs (elems ix))\<rparr>)"

text \<open>
  One step of the generation loop from the probabilities on (lines 274--278): the top 50,
  a draw among them, and the token ids drawn. \<open>probs\<close> has shape \<open>[B, vocab]\<close>.
\<close>

definition sample_step :: "('a::linorder list \<Rightarrow> nat) \<Rightarrow> 'a tensor \<Rightarrow> error + nat tensor" where
  "sample_step draw probs =
     (case topk probs 50 of
        Inl e \<Rightarrow> Inl e
      | Inr (topk_probs, topk_indices) \<Rightarrow>
          gather_last topk_indices (multinomial draw topk_probs))"

section \<open>GPT.\_\_init\_\_ (lines 9--102)\<close>

definition bind_err :: "error + 'a \<Rightarrow> ('a \<Rightarrow> error + 'b) \<Rightarrow> error + 'b" where
  "bind_err m f = (case m of Inl e \<Rightarrow> Inl e | Inr x \<Rightarrow> f x)"

record GPTConfig =
  block_size :: int
  vocab_size :: int
  n_layer :: int
  n_head :: int
  n_embd :: int

definition GPTConfig_default :: GPTConfig where
  "GPTConfig_default =
     \<lparr>block_size = 1024, vocab_size = 50257, n_layer = 12, n_head = 12, n_embd = 768\<rparr>"

text \<open>
  The module tree under construction. A tensor object is an address; \<open>params\<close> maps each
  qualified parameter or buffer name to the tensor object it is bound to (the entries of
  \<^verbatim>\<open>state_dict()\<close>, whose order plays no role below), \<open>shapes\<close> gives the shape of
  the tensor at each address, and \<open>modules\<close> lists the submodules in the order in which
  \<^verbatim>\<open>nn.Module.apply\<close> visits them (children before their parent). Two names bound to
  one address are one tensor.
\<close>

type_synonym addr = nat

datatype module_kind =
  Embedding | Linear | LayerNorm | GELU | CausalSelfAttention | MLP | Block
  | ModuleList | ModuleDict | GPT

record module_state =
  params :: "(string \<times> addr) list"
  shapes :: "nat list list"
  modules :: "(string \<times> module_kind) list"

definition empty_state :: module_state where
  "empty_state = \<lparr>params = [], shapes = [], modules = []\<rparr>"

text \<open>A new tensor bound to a name; torch refuses a negative dimension.\<close>

definition new_tensor :: "string \<Rightarrow> int list \<Rightarrow> module_state \<Rightarrow> error + module_state" where
  "new_tensor name dims s =
     (if list_ex (\<lambda>d. d < 0) dims then Inl RuntimeError
      else Inr (s\<lparr>params := params s @ [(name, length (shapes s))],
                  shapes := shapes s @ [map nat dims]\<rparr>))"

definition add_module :: "string \<Rightarrow> module_kind \<Rightarrow> module_state \<Rightarrow> error + module_state" where
  "add_module name kind s = Inr (s\<lparr>modules := modules s @ [(name, kind)]\<rparr>)"

definition nn_Embedding :: "string \<Rightarrow> int \<Rightarrow> int \<Rightarrow> module_state \<Rightarrow> error + module_state" where
  "nn_Embedding name num_embeddings embedding_dim s =
     bind_err (new_tensor (name @ ''.weight'') [num_embeddings, embedding_dim] s)
       (add_module name Embedding)"

definition nn_Linear ::
  "string \<Rightarrow> int \<Rightarrow> int \<Rightarrow> bool \<Rightarrow> module_state \<Rightarrow> error + module_state" where
  "nn_Linear name in_features out_features has_bias s =
     bind_err (new_tensor (name @ ''.weight'') [out_features, in_features] s) (\<lambda>s.
     bind_err (if has_bias then new_tensor (name @ ''.bias'') [out_features] s else Inr s)
       (add_module name Linear))"

definition nn_LayerNorm :: "string \<Rightarrow> int \<Rightarrow> module_state \<Rightarrow> error + module_state" where
  "nn_LayerNorm name normalized_shape s =
     bind_err (new_tensor (name @ ''.weight'') [normalized_shape] s) (\<lambda>s.
     bind_err (new_tensor (name @ ''.bias'') [normalized_shape] s) (add_module name LayerNorm))"

text \<open>
  \<^verbatim>\<open>CausalSelfAttention.__init__\<close> (lines 10--20): the assertion on the head count
  (whose \<^verbatim>\<open>%\<close> divides by zero for \<open>n_head = 0\<close>), the two projections, and the mask
  buffer registered under the name \<^verbatim>\<open>bias\<close>.
\<close>

definition CausalSelfAttention_init ::
  "string \<Rightarrow> GPTConfig \<Rightarrow> module_state \<Rightarrow> error + module_state" where
  "CausalSelfAttention_init name config s =
     (if n_head config = 0 then Inl ZeroDivisionError
      else if n_embd config mod n_head config \<noteq> 0 then Inl AssertionError
      else
        bind_err (nn_Linear (name @ ''.c_attn'') (n_embd config) (3 * n_embd config) True s) (\<lambda>s.
        bind_err (nn_Linear (name @ ''.c_proj'') (n_embd config) (n_embd config) True s) (\<lambda>s.
        bind_err (new_tensor (name @ ''.bias'')
                    [1, 1, block_size config, block_size config] s)
          (add_module name CausalSelfAttention))))"

definition MLP_init :: "string \<Rightarrow> GPTConfig \<Rightarrow> module_state \<Rightarrow> error + module_state" where
  "MLP_init name config s =
     bind_err (nn_Linear (name @ ''.c_fc'') (n_embd config) (4 * n_embd config) True s) (\<lambda>s.
     bind_err (add_module (name @ ''.gelu'') GELU s) (\<lambda>s.
     bind_err (nn_Linear (name @ ''.c_proj'') (4 * n_embd config) (n_embd config) True s)
       (add_module name MLP)))"

definition Block_init :: "string \<Rightarrow> GPTConfig \<Rightarrow> module_state \<Rightarrow> error + module_state" where
  "Block_init name config s =
     bind_err (nn_LayerNorm (name @ ''.ln_1'') (n_embd config) s) (\<lambda>s.
     bind_err (CausalSelfAttention_init (name @ ''.attn'') config s) (\<lambda>s.
     bind_err (nn_LayerNorm (name @ ''.ln_2'') (n_embd config) s) (\<lambda>s.
     bind_err (MLP_init (name @ ''.mlp'') config s) (add_module name Block))))"

text \<open>The decimal digits of a number, as \<^verbatim>\<open>str\<close> writes the index of a block.\<close>

fun str_nat :: "nat \<Rightarrow> string" where
  "str_nat n =
     (if n < 10 then [char_of (48 + n)]
      else str_nat (n div 10) @ [char_of (48 + n mod 10)])"

declare str_nat.simps [simp del]

fun Block_list ::
  "string \<Rightarrow> GPTConfig \<Rightarrow> nat list \<Rightarrow> module_state \<Rightarrow> error + module_state" where
  "Block_list name config [] s = Inr s"
| "Block_list name config (i # is) s =
     bind_err (Block_init (name @ ''.'' @ str_nat i) config s) (Block_list name config is)"

text \<open>
  Lines 82--88: the embeddings, \<^verbatim>\<open>range(config.n_layer)\<close> blocks, the final layer norm
  and the output projection without bias.
\<close>

definition build_modules :: "GPTConfig \<Rightarrow> error + module_state" where
  "build_modules config =
     bind_err (nn_Embedding ''transformer.wte'' (vocab_size config) (n_embd config) empty_state) (\<lambda>s.
     bind_err (nn_Embedding ''transformer.wpe'' (block_size config) (n_embd config) s) (\<lambda>s.
     bind_err (Block_list ''transformer.h'' config [0..<nat (n_layer config)] s) (\<lambda>s.
     bind_err (add_module ''transformer.h'' ModuleList s) (\<lambda>s.
     bind_err (nn_LayerNorm ''transformer.ln_f'' (n_embd config) s) (\<lambda>s.
     bind_err (add_module ''transformer'' ModuleDict s) (\<lambda>s.
     nn_Linear ''lm_head'' (n_embd config) (vocab_size config) False s))))))"

text \<open>
  Line 91, \<^verbatim>\<open>self.transformer.wte.weight = self.lm_head.weight\<close>: the name of the
  token embedding is bound to the tensor object of the output projection.
\<close>

definition tie_weights :: "module_state \<Rightarrow> error + module_state" where
  "tie_weights s =
     (case map_of (params s) ''lm_head.weight'' of
        None \<Rightarrow> Inl (AttributeError ''weight'')
      | Some a \<Rightarrow>
          Inr (s\<lparr>params :=
                    map (\<lambda>(n, b). if n = ''transformer.wte.weight'' then (n, a) else (n, b))
                      (params s)\<rparr>))"

text \<open>
  Line 94, \<^verbatim>\<open>self.apply(_init_weights)\<close>. The argument is a bare name, so Python looks
  it up among the local names of \<^verbatim>\<open>__init__\<close>, then the names bound at module level,
  then the builtins (none of which is \<^verbatim>\<open>_init_weights\<close>): a method of the class is in
  none of these scopes. \<open>module_globals\<close> are the names the file binds at module level.
\<close>

definition module_globals :: "string list" where
  "module_globals =
     [''math'', ''dataclass'', ''torch'', ''nn'', ''F'', ''CausalSelfAttention'', ''MLP'',
      ''Block'', ''GPTConfig'', ''GPT'', ''tiktoken'', ''DataLoaderLite'', ''device'',
      ''train_loader'', ''model'', ''optimizer'', ''i'', ''x'', ''y'', ''logits'', ''loss'',
      ''sys'', ''num_return_sequences'', ''max_length'', ''enc'', ''tokens'', ''topk_probs'',
      ''topk_indices'', ''probs'', ''ix'', ''xcol'', ''decoded'']"

definition init_locals :: "string list" where
  "init_locals = [''self'', ''config'', ''__class__'']"

definition lookup_name :: "string list \<Rightarrow> string \<Rightarrow> error + string" where
  "lookup_name scope name = (if name \<in> set scope then Inr name else Inl (NameError name))"

text \<open>
  \<^verbatim>\<open>GPT._init_weights\<close> (lines 96--102). Its first test is written
  \<^verbatim>\<open>isinstance(module. nn.Linear)\<close>, which reads the attribute \<^verbatim>\<open>nn\<close> of the module
  before anything else; no torch module has one, so the method raises an AttributeError
  on every module before it reaches an initializer.
\<close>

definition init_weights ::
  "string \<times> module_kind \<Rightarrow> module_state \<Rightarrow> error + module_state" where
  "init_weights m s = Inl (AttributeError ''nn'')"

fun module_apply ::
  "(string \<times> module_kind \<Rightarrow> module_state \<Rightarrow> error + module_state) \<Rightarrow>
   (string \<times> module_kind) list \<Rightarrow> module_state \<Rightarrow> error + module_state" where
  "module_apply f [] s = Inr s"
| "module_apply f (m # ms) s = bind_err (f m s) (module_apply f ms)"

text \<open>
  \<^verbatim>\<open>GPT.__init__\<close> (lines 78--94). Were the name of line 94 bound, \<^verbatim>\<open>apply\<close> would
  call the function on every submodule and then on the model; the only definition of that
  name in the file is the method above.
\<close>

definition GPT_init :: "GPTConfig \<Rightarrow> error + module_state" where
  "GPT_init config =
     bind_err (build_modules config) (\<lambda>s.
     bind_err (tie_weights s) (\<lambda>s.
     bind_err (lookup_name (init_locals @ module_globals) ''_init_weights'') (\<lambda>f.
     bind_err (add_module [] GPT s) (\<lambda>s.
       module_apply init_weights (modules s) s))))"

section \<open>GPT.from\_pretrained (lines 125--171)\<close>

text \<open>
  The contents of the model's tensors: a heap from tensor objects to tensors. A
  \<^verbatim>\<open>state_dict\<close> entry of the model is a name bound to an address, so writing through
  one name is seen through every name bound to the same address. The foreign
  \<^verbatim>\<open>state_dict\<close> is only read: it maps names to tensors.
\<close>

type_synonym 'a heap = "addr \<Rightarrow> 'a tensor"

definition endswith :: "string \<Rightarrow> string \<Rightarrow> bool" where
  "endswith s w = (length w \<le> length s \<and> drop (length s - length w) s = w)"

definition dict_get :: "(string \<times> 'v) list \<Rightarrow> string \<Rightarrow> error + 'v" where
  "dict_get d k = (case map_of d k of None \<Rightarrow> Inl (KeyError k) | Some v \<Rightarrow> Inr v)"

text \<open>
  \<^verbatim>\<open>Tensor.t()\<close>: a tensor of at most one axis is returned as it is, a matrix is
  transposed, and more than two axes are a RuntimeError.
\<close>

definition tensor_t :: "'a tensor \<Rightarrow> error + 'a tensor" where
  "tensor_t x =
     (case shape x of
        [] \<Rightarrow> Inr x
      | [n] \<Rightarrow> Inr x
      | [r, c] \<Rightarrow>
          Inr \<lparr>shape = [c, r],
               elems = concat (map (\<lambda>j. map (\<lambda>i. elems x ! (i * c + j)) [0..<r]) [0..<c])\<rparr>
      | _ \<Rightarrow> Inl RuntimeError)"

text \<open>
  \<^verbatim>\<open>dst.copy_(src)\<close> for a source of the destination's shape, the only case the
  assertions before it let through: the destination keeps its shape and takes the
  source's elements.
\<close>

definition tensor_copy :: "'a tensor \<Rightarrow> 'a tensor \<Rightarrow> 'a tensor" where
  "tensor_copy dst src = dst\<lparr>elems := elems src\<rparr>"

definition transposed :: "string list" where
  "transposed =
     [''attn.c_attn.weight'', ''attn.c_proj.weight'', ''mlp.c_fc.weight'', ''mlp.c_proj.weight'']"

definition is_transposed :: "string \<Rightarrow> bool" where
  "is_transposed k = list_ex (\<lambda>w. endswith k w) transposed"

text \<open>Lines 144--145 and 152--154: the names left after the buffers are dropped.\<close>

definition model_keys :: "(string \<times> addr) list \<Rightarrow> string list" where
  "model_keys sd = filter (\<lambda>k. \<not> endswith k ''.attn.bias'') (map fst sd)"

definition foreign_keys :: "(string \<times> 'a tensor) list \<Rightarrow> string list" where
  "foreign_keys sd_hf =
     filter (\<lambda>k. \<not> endswith k ''.attn.bias'')
       (filter (\<lambda>k. \<not> endswith k ''.attn.masked_bias'') (map fst sd_hf))"

text \<open>
  The body of the loop (lines 160--169) for one name \<open>k\<close>. In both assertions
  \<^verbatim>\<open>sd_hf[k]\<close> is read before \<^verbatim>\<open>sd[k]\<close>; a name the model lacks is a KeyError there.
\<close>

definition copy_param ::
  "(string \<times> addr) list \<Rightarrow> (string \<times> 'a tensor) list \<Rightarrow> 'a heap \<Rightarrow> string \<Rightarrow> error + 'a heap" where
  "copy_param sd sd_hf h k =
     (if is_transposed k then
        bind_err (dict_get sd_hf k) (\<lambda>src.
        bind_err (dict_get sd k) (\<lambda>a.
          if rev (shape src) \<noteq> shape (h a) then Inl AssertionError
          else bind_err (tensor_t src) (\<lambda>st. Inr (h(a := tensor_copy (h a) st)))))
      else
        bind_err (dict_get sd_hf k) (\<lambda>src.
        bind_err (dict_get sd k) (\<lambda>a.
          if shape src \<noteq> shape (h a) then Inl AssertionError
          else Inr (h(a := tensor_copy (h a) src)))))"

fun copy_params ::
  "(string \<times> addr) list \<Rightarrow> (string \<times> 'a tensor) list \<Rightarrow> string list \<Rightarrow> 'a heap \<Rightarrow> error + 'a heap" where
  "copy_params sd sd_hf [] h = Inr h"
| "copy_params sd sd_hf (k # ks) h =
     bind_err (copy_param sd sd_hf h k) (copy_params sd sd_hf ks)"

text \<open>
  Lines 143--169: the alignment of a foreign \<^verbatim>\<open>state_dict\<close> \<open>sd_hf\<close> with the model's
  \<open>sd\<close>, whose tensors live in the heap \<open>h\<close>.
\<close>

definition align ::
  "(string \<times> addr) list \<Rightarrow> (string \<times> 'a tensor) list \<Rightarrow> 'a heap \<Rightarrow> error + 'a heap" where
  "align sd sd_hf h =
     (if length (foreign_keys sd_hf) \<noteq> length (model_keys sd) then Inl AssertionError
      else copy_params sd sd_hf (foreign_keys sd_hf) h)"

definition model_types :: "string list" where
  "model_types = [''gpt2'', ''gpt2-medium'', ''gpt2-large'', ''gpt2-xl'']"

definition config_args :: "(string \<times> (int \<times> int \<times> int)) list" where
  "config_args =
     [(''gpt2'', (12, 12, 768)),
      (''gpt2-medium'', (24, 16, 1024)),
      (''gpt2-large'', (36, 20, 1280)),
      (''gpt2-xl'', (48, 25, 1600))]"

text \<open>Lines 132--141: the configuration the model is constructed from.\<close>

definition pretrained_config :: "string \<Rightarrow> error + GPTConfig" where
  "pretrained_config model_type =
     bind_err (dict_get config_args model_type) (\<lambda>(l, h, e).
       Inr \<lparr>block_size = 1024, vocab_size = 50257, n_layer = l, n_head = h, n_embd = e\<rparr>)"

text \<open>
  \<^verbatim>\<open>GPT.from_pretrained\<close>. The hub (\<^verbatim>\<open>GPT2LMHeadModel.from_pretrained\<close> with its
  \<^verbatim>\<open>state_dict\<close>) and the contents \<open>fill\<close> of the freshly constructed tensors are
  parameters; the import of line 129 is taken to succeed.
\<close>

definition from_pretrained ::
  "(string \<Rightarrow> error + (string \<times> 'a tensor) list) \<Rightarrow> (addr \<Rightarrow> 'a list) \<Rightarrow> string \<Rightarrow>
   error + (module_state \<times> 'a heap)" where
  "from_pretrained hub fill model_type =
     (if model_type \<notin> set model_types then Inl AssertionError
      else
        bind_err (pretrained_config model_type) (\<lambda>config.
        bind_err (GPT_init config) (\<lambda>model.
        bind_err (hub model_type) (\<lambda>sd_hf.
        bind_err (align (params model) sd_hf
                    (\<lambda>a. \<lparr>shape = shapes model ! a, elems = fill a\<rparr>)) (\<lambda>h.
          Inr (model, h))))))"

section \<open>Notions used in the proofs\<close>

text \<open>
  A configuration whose modules can all be constructed when there is at least one block:
  no negative size, and a head count that divides the embedding width.
\<close>

definition config_ok :: "GPTConfig \<Rightarrow> bool" where
  "config_ok config =
     (0 \<le> block_size config \<and> 0 \<le> vocab_size config \<and> 0 \<le> n_embd config \<and>
      n_head config \<noteq> 0 \<and> n_embd config mod n_head config = 0)"



text \<open>
  A small model \<^verbatim>\<open>state_dict\<close> with tied weights (two names at address 0), a mask
  buffer and one transposed parameter, its heap, and foreign \<^verbatim>\<open>state_dict\<close>s for it: one
  that fits, one in which a parameter has another name, one that is too short, and one
  whose fused attention weight was not stored transposed.
\<close>

definition example_sd :: "(string \<times> addr) list" where
  "example_sd =
     [(''transformer.wte.weight'', 0),
      (''transformer.h.0.attn.bias'', 1),
      (''transformer.h.0.attn.c_attn.weight'', 2),
      (''lm_head.weight'', 0)]"

definition example_heap :: "real heap" where
  "example_heap a =
     (if a = 1 then \<lparr>shape = [1, 1, 2, 2], elems = [1, 0, 1, 1]\<rparr>
      else if a = 2 then \<lparr>shape = [3, 2], elems = [0, 0, 0, 0, 0, 0]\<rparr>
      else \<lparr>shape = [2, 2], elems = [0, 0, 0, 0]\<rparr>)"

definition example_sd_hf :: "(string \<times> real tensor) list" where
  "example_sd_hf =
     [(''transformer.wte.weight'', \<lparr>shape = [2, 2], elems = [1, 2, 3, 4]\<rparr>),
      (''transformer.h.0.attn.masked_bias'', \<lparr>shape = [], elems = [- 10000]\<rparr>),
      (''transformer.h.0.attn.c_attn.weight'', \<lparr>shape = [2, 3], elems = [1, 2, 3, 4, 5, 6]\<rparr>),
      (''lm_head.weight'', \<lparr>shape = [2, 2], elems = [1, 2, 3, 4]\<rparr>)]"

definition example_sd_hf_renamed :: "(string \<times> real tensor) list" where
  "example_sd_hf_renamed =
     [(''transformer.wte.weight'', \<lparr>shape = [2, 2], elems = [1, 2, 3, 4]\<rparr>),
      (''transformer.h.0.attn.c_attn.weight'', \<lparr>shape = [2, 3], elems = [1, 2, 3, 4, 5, 6]\<rparr>),
      (''head.weight'', \<lparr>shape = [2, 2], elems = [1, 2, 3, 4]\<rparr>)]"

definition example_sd_hf_short :: "(string \<times> real tensor) list" where
  "example_sd_hf_short =
     [(''transformer.wte.weight'', \<lparr>shape = [2, 2], elems = [1, 2, 3, 4]\<rparr>)]"



section \<open>Properties of DataLoaderLite\<close>

subsection \<open>Slices and views\<close>

lemma slice_window:
  assumes "0 \<le> c" "0 \<le> m" "c + m \<le> int (length xs)"
  shows "py_slice xs (Some c) (Some (c + m)) = take (nat m) (drop (nat c) xs)"
  using assms by (simp add: py_slice_def slice_bound_def Let_def min_def nat_add_distrib)

lemma slice_butlast: "py_slice xs None (Some (- 1)) = butlast xs"
  by (cases "xs = []")
    (simp_all add: py_slice_def slice_bound_def butlast_conv_take nat_diff_distrib max_def)

lemma slice_tail: "py_slice xs (Some 1) None = drop 1 xs"
  by (cases "xs = []") (simp_all add: py_slice_def slice_bound_def min_def)

lemma view2_ok:
  assumes "0 \<le> b" "0 \<le> t" "int (length xs) = b * t"
  shows "view2 xs b t = Inr \<lparr>shape = [nat b, nat t], elems = xs\<rparr>"
  using assms by (auto simp add: view2_def Let_def)

lemma view2_bad:
  assumes "0 \<le> b" "0 \<le> t" "int (length xs) \<noteq> b * t"
  shows "view2 xs b t = Inl RuntimeError"
  using assms by (auto simp add: view2_def Let_def)

subsection \<open>Integer division\<close>

lemma int_div_ge: "0 < (b::int) \<Longrightarrow> k * b \<le> x \<Longrightarrow> k \<le> x div b"
  using zdiv_mono1 [of "k * b" x b] by simp

lemma int_div_mult_le: "0 < (b::int) \<Longrightarrow> (x div b) * b \<le> x"
proof -
  assume b: "0 < b"
  have "x = (x div b) * b + x mod b" by simp
  moreover have "0 \<le> x mod b" using b by simp
  ultimately show ?thesis by linarith
qed

lemma int_div_lt: "0 < (b::int) \<Longrightarrow> x < k * b \<Longrightarrow> x div b < k"
proof (rule ccontr)
  assume b: "0 < b" and x: "x < k * b" and n: "\<not> x div b < k"
  from n have "k \<le> x div b" by simp
  then have "k * b \<le> (x div b) * b" using b by (simp add: mult_right_mono)
  also have "\<dots> \<le> x" using b by (rule int_div_mult_le)
  finally show False using x by simp
qed

lemma int_div_shift: "0 < (b::int) \<Longrightarrow> (x - b) div b = x div b - 1"
  using div_add_self2 [of b "x - b"] by simp

subsection \<open>One call\<close>

lemma next_batch_step:
  assumes "0 \<le> B s" "0 \<le> T s" "0 \<le> current_position s"
    and "current_position s + B s * T s + 1 \<le> int (length (tokens s))"
  shows "next_batch s =
     Inr (\<lparr>shape = [nat (B s), nat (T s)],
           elems = take (nat (B s * T s)) (drop (nat (current_position s)) (tokens s))\<rparr>,
          \<lparr>shape = [nat (B s), nat (T s)],
           elems = take (nat (B s * T s)) (drop (nat (current_position s) + 1) (tokens s))\<rparr>,
          s\<lparr>current_position :=
              (if current_position s + B s * T s + (B s * T s + 1) > int (length (tokens s))
               then 0 else current_position s + B s * T s)\<rparr>)"
proof -
  let ?c = "current_position s" and ?m = "B s * T s"
  have m0: "0 \<le> ?m" using assms by simp
  have buf: "py_slice (tokens s) (Some ?c) (Some (?c + ?m + 1))
      = take (nat (?m + 1)) (drop (nat ?c) (tokens s))"
    using slice_window [of ?c "?m + 1" "tokens s"] assms m0 by (simp add: add.assoc)
  have len: "length (take (nat (?m + 1)) (drop (nat ?c) (tokens s))) = nat (?m + 1)"
    using assms m0 by simp
  have x: "butlast (take (nat (?m + 1)) (drop (nat ?c) (tokens s)))
      = take (nat ?m) (drop (nat ?c) (tokens s))"
    using m0 len by (simp add: butlast_take nat_add_distrib)
  have y: "drop 1 (take (nat (?m + 1)) (drop (nat ?c) (tokens s)))
      = take (nat ?m) (drop (nat ?c + 1) (tokens s))"
    using m0 by (simp add: drop_take nat_add_distrib)
  have lx: "int (length (take (nat ?m) (drop (nat ?c) (tokens s)))) = ?m"
    using assms m0 by simp
  have ly: "int (length (take (nat ?m) (drop (nat ?c + 1) (tokens s)))) = ?m"
    using assms m0 by simp
  show ?thesis
    unfolding next_batch_def Let_def buf slice_butlast slice_tail x y
    using view2_ok [OF assms(1) assms(2) lx] view2_ok [OF assms(1) assms(2) ly]
    by simp
qed

lemma next_batch_keeps_cursor_ok:
  assumes "0 < B s" "0 < T s" "cursor_ok s"
  shows "\<exists>x y s'. next_batch s = Inr (x, y, s') \<and> cursor_ok s' \<and>
           B s' = B s \<and> T s' = T s \<and> tokens s' = tokens s \<and>
           shape x = [nat (B s), nat (T s)] \<and> shape y = [nat (B s), nat (T s)] \<and>
           length (elems x) = nat (B s * T s) \<and> length (elems y) = nat (B s * T s)"
proof -
  have m: "0 < B s * T s" using assms by simp
  have st: "next_batch s =
     Inr (\<lparr>shape = [nat (B s), nat (T s)],
           elems = take (nat (B s * T s)) (drop (nat (current_position s)) (tokens s))\<rparr>,
          \<lparr>shape = [nat (B s), nat (T s)],
           elems = take (nat (B s * T s)) (drop (nat (current_position s) + 1) (tokens s))\<rparr>,
          s\<lparr>current_position :=
              (if current_position s + B s * T s + (B s * T s + 1) > int (length (tokens s))
               then 0 else current_position s + B s * T s)\<rparr>)"
    using next_batch_step [of s] assms by (simp add: cursor_ok_def)
  show ?thesis
    unfolding st using assms m by (auto simp add: cursor_ok_def)
qed

subsection \<open>Many calls\<close>

lemma next_batch_times_ok:
  assumes "0 < B s" "0 < T s" "cursor_ok s"
  shows "\<exists>s'. next_batch_times n s = Inr s' \<and> cursor_ok s' \<and>
           B s' = B s \<and> T s' = T s \<and> tokens s' = tokens s"
  using assms
proof (induction n arbitrary: s)
  case 0
  then show ?case by simp
next
  case (Suc n)
  from next_batch_keeps_cursor_ok [OF Suc.prems]
  obtain x y s1 where s1: "next_batch s = Inr (x, y, s1)" "cursor_ok s1"
      "B s1 = B s" "T s1 = T s" "tokens s1 = tokens s"
    by blast
  from Suc.IH [of s1] s1 Suc.prems
  obtain s' where "next_batch_times n s1 = Inr s'" "cursor_ok s'"
      "B s' = B s1" "T s' = T s1" "tokens s' = tokens s1"
    by auto
  with s1 show ?case by simp
qed

lemma next_batch_times_wrap:
  assumes "0 < B s" "0 < T s" "cursor_ok s"
    and "nat ((int (length (tokens s)) - 1 - current_position s) div (B s * T s)) = Suc m"
  shows "next_batch_times (Suc m) s = Inr (s\<lparr>current_position := 0\<rparr>)"
  using assms
proof (induction m arbitrary: s)
  case 0
  let ?n = "int (length (tokens s))" and ?c = "current_position s" and ?m = "B s * T s"
  have m: "0 < ?m" using 0 by simp
  have "(?n - 1 - ?c) div ?m < 2" using 0(4) by linarith
  then have "\<not> 2 * ?m \<le> ?n - 1 - ?c" using int_div_ge [OF m, of 2 "?n - 1 - ?c"] by linarith
  then have reset: "?c + ?m + (?m + 1) > ?n" by linarith
  have "next_batch s = Inr (\<lparr>shape = [nat (B s), nat (T s)],
           elems = take (nat (B s * T s)) (drop (nat (current_position s)) (tokens s))\<rparr>,
          \<lparr>shape = [nat (B s), nat (T s)],
           elems = take (nat (B s * T s)) (drop (nat (current_position s) + 1) (tokens s))\<rparr>,
          s\<lparr>current_position := 0\<rparr>)"
    using next_batch_step [of s] 0(1-3) reset by (simp add: cursor_ok_def)
  then show ?case by simp
next
  case (Suc m)
  let ?n = "int (length (tokens s))" and ?c = "current_position s" and ?m = "B s * T s"
  have m: "0 < ?m" using Suc.prems by simp
  have d: "(?n - 1 - ?c) div ?m = int (Suc (Suc m))" using Suc.prems(4) by linarith
  have "\<not> (?n - 1 - ?c) < 2 * ?m"
    using int_div_lt [OF m, of "?n - 1 - ?c" 2] d by linarith
  then have keep: "\<not> ?c + ?m + (?m + 1) > ?n" by linarith
  let ?s1 = "s\<lparr>current_position := ?c + ?m\<rparr>"
  have nb: "next_batch s = Inr (\<lparr>shape = [nat (B s), nat (T s)],
           elems = take (nat (B s * T s)) (drop (nat (current_position s)) (tokens s))\<rparr>,
          \<lparr>shape = [nat (B s), nat (T s)],
           elems = take (nat (B s * T s)) (drop (nat (current_position s) + 1) (tokens s))\<rparr>,
          ?s1)"
    using next_batch_step [of s] Suc.prems(1-3) keep by (simp add: cursor_ok_def)
  have ok1: "cursor_ok ?s1" using Suc.prems(3) keep m by (simp add: cursor_ok_def)
  have "(?n - 1 - (?c + ?m)) div ?m = (?n - 1 - ?c) div ?m - 1"
    using int_div_shift [OF m, of "?n - 1 - ?c"] by (simp add: algebra_simps)
  then have d1: "nat ((int (length (tokens ?s1)) - 1 - current_position ?s1)
      div (B ?s1 * T ?s1)) = Suc m"
    using d by simp
  have "next_batch_times (Suc m) ?s1 = Inr (?s1\<lparr>current_position := 0\<rparr>)"
    using Suc.IH [of ?s1] Suc.prems(1,2) ok1 d1 by simp
  then show ?case using nb by simp
qed

lemma wrap_count_positive:
  assumes "0 < B s" "0 < T s" "cursor_ok s"
  shows "\<exists>m. nat ((int (length (tokens s)) - 1 - current_position s) div (B s * T s)) = Suc m"
proof -
  let ?n = "int (length (tokens s))" and ?c = "current_position s" and ?m = "B s * T s"
  have m: "0 < ?m" using assms by simp
  have "1 * ?m \<le> ?n - 1 - ?c" using assms(3) by (simp add: cursor_ok_def)
  then have "1 \<le> (?n - 1 - ?c) div ?m" using int_div_ge [OF m] by blast
  then have "0 < nat ((?n - 1 - ?c) div ?m)" by simp
  then show ?thesis using gr0_implies_Suc by blast
qed

subsection \<open>The window a call returns, and the wrap\<close>

text \<open>
  Claim C6. For a loader with batch sizes \<open>B, T \<ge> 1\<close> whose cursor \<open>c \<ge> 0\<close> leaves a whole
  window (\<open>c + B * T + 1 \<le>\<close> corpus length), \<^verbatim>\<open>next_batch\<close> returns the input
  \<^verbatim>\<open>tokens[c : c+B*T]\<close> and the target \<^verbatim>\<open>tokens[c+1 : c+B*T+1]\<close>, both of shape
  \<open>[B, T]\<close>, the target being the input shifted by one token; it moves the cursor to
  \<open>c + B * T\<close>, or to 0 exactly when the read after this one would pass the end of the
  corpus. After some positive number of calls the cursor is 0 again and the next call
  returns the window \<^verbatim>\<open>tokens[0 : B*T]\<close>, which is the first input of a loader that
  started at 0.
\<close>

theorem next_batch_window_shift_wrap:
  assumes "0 < B s" and "0 < T s" and "0 \<le> current_position s"
    and "current_position s + B s * T s + 1 \<le> int (length (tokens s))"
  shows "\<exists>x y s'. next_batch s = Inr (x, y, s') \<and>
      x = \<lparr>shape = [nat (B s), nat (T s)],
           elems = py_slice (tokens s) (Some (current_position s))
                     (Some (current_position s + B s * T s))\<rparr> \<and>
      y = \<lparr>shape = [nat (B s), nat (T s)],
           elems = py_slice (tokens s) (Some (current_position s + 1))
                     (Some (current_position s + B s * T s + 1))\<rparr> \<and>
      length (elems x) = nat (B s * T s) \<and>
      length (elems y) = nat (B s * T s) \<and>
      (\<forall>i. i + 1 < nat (B s * T s) \<longrightarrow> elems y ! i = elems x ! (i + 1)) \<and>
      s' = s\<lparr>current_position :=
              (if int (length (tokens s)) < current_position s + B s * T s + (B s * T s + 1)
               then 0 else current_position s + B s * T s)\<rparr> \<and>
      ((current_position s' = 0) =
         (int (length (tokens s)) < current_position s + B s * T s + (B s * T s + 1))) \<and>
      (\<exists>n sn x' y' s''. 0 < n \<and> next_batch_times n s = Inr sn \<and>
         current_position sn = 0 \<and> next_batch sn = Inr (x', y', s'') \<and>
         x' = \<lparr>shape = [nat (B s), nat (T s)],
               elems = py_slice (tokens s) (Some 0) (Some (B s * T s))\<rparr> \<and>
         (current_position s = 0 \<longrightarrow> x' = x))"
proof -
  let ?c = "current_position s" and ?m = "B s * T s" and ?n = "int (length (tokens s))"
  have b0: "0 \<le> B s" and t0: "0 \<le> T s" using assms by simp_all
  have m: "0 < ?m" using assms by simp
  have ok: "cursor_ok s" using assms by (simp add: cursor_ok_def)
  let ?x = "\<lparr>shape = [nat (B s), nat (T s)],
              elems = take (nat ?m) (drop (nat ?c) (tokens s))\<rparr>"
  let ?y = "\<lparr>shape = [nat (B s), nat (T s)],
              elems = take (nat ?m) (drop (nat ?c + 1) (tokens s))\<rparr>"
  let ?s' = "s\<lparr>current_position := (if ?n < ?c + ?m + (?m + 1) then 0 else ?c + ?m)\<rparr>"
  have nb: "next_batch s = Inr (?x, ?y, ?s')"
    using next_batch_step [OF b0 t0 assms(3) assms(4)] by simp
  have sx: "py_slice (tokens s) (Some ?c) (Some (?c + ?m)) = take (nat ?m) (drop (nat ?c) (tokens s))"
    using slice_window [of ?c ?m "tokens s"] assms m by simp
  have sy: "py_slice (tokens s) (Some (?c + 1)) (Some (?c + ?m + 1))
      = take (nat ?m) (drop (nat ?c + 1) (tokens s))"
  proof -
    have "py_slice (tokens s) (Some (?c + 1)) (Some (?c + 1 + ?m))
        = take (nat ?m) (drop (nat (?c + 1)) (tokens s))"
      using slice_window [of "?c + 1" ?m "tokens s"] assms m by simp
    moreover have "?c + 1 + ?m = ?c + ?m + 1" by simp
    moreover have "nat (?c + 1) = nat ?c + 1" using assms(3) by simp
    ultimately show ?thesis by simp
  qed
  have lx: "length (elems ?x) = nat ?m" using assms m by simp
  have ly: "length (elems ?y) = nat ?m" using assms m by simp
  have shift: "\<forall>i. i + 1 < nat ?m \<longrightarrow> elems ?y ! i = elems ?x ! (i + 1)"
  proof -
    have "Suc (nat ?c) \<le> length (tokens s)" using assms m by linarith
    then show ?thesis by simp
  qed
  have zero: "(current_position ?s' = 0) = (?n < ?c + ?m + (?m + 1))"
    using assms(3) m by simp
  from wrap_count_positive [OF assms(1) assms(2) ok]
  obtain k where k: "nat ((?n - 1 - ?c) div ?m) = Suc k" by blast
  let ?sn = "s\<lparr>current_position := 0\<rparr>"
  have wr: "next_batch_times (Suc k) s = Inr ?sn"
    using next_batch_times_wrap [OF assms(1) assms(2) ok k] .
  have len0: "0 + B ?sn * T ?sn + 1 \<le> int (length (tokens ?sn))" using assms by simp
  let ?xw = "\<lparr>shape = [nat (B s), nat (T s)], elems = take (nat ?m) (tokens s)\<rparr>"
  have "\<exists>y' s''. next_batch ?sn = Inr (?xw, y', s'')"
    using next_batch_step [of ?sn] b0 t0 len0 by simp
  then obtain y' s'' where nb0: "next_batch ?sn = Inr (?xw, y', s'')" by blast
  have s0: "py_slice (tokens s) (Some 0) (Some ?m) = take (nat ?m) (tokens s)"
    using slice_window [of 0 ?m "tokens s"] assms m by simp
  have same: "?c = 0 \<longrightarrow> ?xw = ?x" by simp
  have wrap: "\<exists>n sn x' y' s''. 0 < n \<and> next_batch_times n s = Inr sn \<and>
         current_position sn = 0 \<and> next_batch sn = Inr (x', y', s'') \<and>
         x' = \<lparr>shape = [nat (B s), nat (T s)],
               elems = py_slice (tokens s) (Some 0) (Some ?m)\<rparr> \<and>
         (?c = 0 \<longrightarrow> x' = ?x)"
    apply (rule exI [of _ "Suc k"], rule exI [of _ ?sn], rule exI [of _ ?xw],
           rule exI [of _ y'], rule exI [of _ s''])
    using wr nb0 s0 same by simp
  show ?thesis
    apply (rule exI [of _ ?x], rule exI [of _ ?y], rule exI [of _ ?s'])
    unfolding sx sy
    using nb lx ly shift zero wrap [unfolded sx] by blast
qed

theorem next_batch_window_shift_wrap_witness:
  "0 < B \<lparr>B = 2, T = 3, tokens = [10, 11, 12, 13, 14, 15, 16, 17, 18, 19, 20, 21, 22, 23],
          current_position = 0\<rparr> \<and>
   0 < T \<lparr>B = 2, T = 3, tokens = [10, 11, 12, 13, 14, 15, 16, 17, 18, 19, 20, 21, 22, 23],
          current_position = 0\<rparr> \<and>
   (\<exists>y s'. next_batch \<lparr>B = 2, T = 3,
                tokens = [10, 11, 12, 13, 14, 15, 16, 17, 18, 19, 20, 21, 22, 23],
                current_position = 0\<rparr>
        = Inr (\<lparr>shape = [2, 3], elems = [10, 11, 12, 13, 14, 15]\<rparr>, y, s') \<and>
        elems y = [11, 12, 13, 14, 15, 16] \<and> current_position s' = 6) \<and>
   (\<exists>n sn y' s''. 0 < n \<and>
        next_batch_times n \<lparr>B = 2, T = 3,
                tokens = [10, 11, 12, 13, 14, 15, 16, 17, 18, 19, 20, 21, 22, 23],
                current_position = 0\<rparr> = Inr sn \<and>
        next_batch sn = Inr (\<lparr>shape = [2, 3], elems = [10, 11, 12, 13, 14, 15]\<rparr>, y', s''))"
proof -
  let ?s = "\<lparr>B = 2, T = 3, tokens = [10, 11, 12, 13, 14, 15, 16, 17, 18, 19, 20, 21, 22, 23],
          current_position = 0\<rparr>"
  have h1: "0 < B ?s" and h2: "0 < T ?s" and h3: "0 \<le> current_position ?s"
    and h4: "current_position ?s + B ?s * T ?s + 1 \<le> int (length (tokens ?s))"
    by simp_all
  have sl: "py_slice [10, 11, 12, 13, 14, 15, 16, 17, 18, 19, 20, 21, 22, 23 :: int]
              (Some 0) (Some 6) = [10, 11, 12, 13, 14, 15]"
      "py_slice [10, 11, 12, 13, 14, 15, 16, 17, 18, 19, 20, 21, 22, 23 :: int]
              (Some 1) (Some 7) = [11, 12, 13, 14, 15, 16]"
    by (simp_all add: py_slice_def slice_bound_def)
  from next_batch_window_shift_wrap [OF h1 h2 h3 h4]
  show ?thesis by (simp add: sl) blast
qed

subsection \<open>Construction and the length of the corpus\<close>

text \<open>
  The constructor accepts a corpus that is shorter than one window: three tokens for
  \<open>B = 4\<close>, \<open>T = 32\<close>, where a window needs 129.
\<close>

theorem init_accepts_short_corpus:
  "int (length [1, 2, 3 :: int]) < 4 * 32 + 1 \<and>
   DataLoaderLite_init [''input.txt'' \<mapsto> ''abc''] (\<lambda>content. [1, 2, 3]) 4 32
     = Inr \<lparr>B = 4, T = 32, tokens = [1, 2, 3], current_position = 0\<rparr>"
  by (simp add: DataLoaderLite_init_def)

text \<open>
  Claim C7, as the code has it. The constructor makes no check of the corpus length:
  whenever \<^verbatim>\<open>input.txt\<close> can be read and \<open>B * T \<noteq> 0\<close> it returns a loader with the
  cursor at 0, also for a corpus of fewer than \<open>B * T + 1\<close> tokens. For such a corpus and
  \<open>B, T \<ge> 1\<close> it is the first \<^verbatim>\<open>next_batch\<close> call that fails, with the runtime error of
  \<^verbatim>\<open>view(B, T)\<close>.
\<close>

theorem init_without_length_check:
  assumes "fs ''input.txt'' = Some content" and "b * t \<noteq> 0"
  shows "DataLoaderLite_init fs encode b t
           = Inr \<lparr>B = b, T = t, tokens = encode content, current_position = 0\<rparr> \<and>
         (0 < b \<and> 0 < t \<and> int (length (encode content)) < b * t + 1 \<longrightarrow>
            next_batch \<lparr>B = b, T = t, tokens = encode content, current_position = 0\<rparr>
              = Inl RuntimeError)"
proof -
  have init: "DataLoaderLite_init fs encode b t
           = Inr \<lparr>B = b, T = t, tokens = encode content, current_position = 0\<rparr>"
    using assms by (simp add: DataLoaderLite_init_def)
  have "next_batch \<lparr>B = b, T = t, tokens = encode content, current_position = 0\<rparr>
              = Inl RuntimeError"
    if b: "0 < b" and t: "0 < t" and short: "int (length (encode content)) < b * t + 1"
  proof -
    let ?xs = "encode content"
    have m: "0 < b * t" using b t by simp
    have buf: "py_slice ?xs (Some 0) (Some (b * t + 1)) = ?xs"
      using short m by (simp add: py_slice_def slice_bound_def min_def)
    have "int (length (butlast ?xs)) \<noteq> b * t" using short m by simp
    then have "view2 (butlast ?xs) b t = Inl RuntimeError"
      using view2_bad [of b t "butlast ?xs"] b t by simp
    then show ?thesis
      by (simp add: next_batch_def Let_def buf slice_butlast)
  qed
  with init show ?thesis by blast
qed

theorem init_without_length_check_witness:
  "[''input.txt'' \<mapsto> ''abc''] ''input.txt'' = Some ''abc'' \<and> (4::int) * 32 \<noteq> 0 \<and>
   DataLoaderLite_init [''input.txt'' \<mapsto> ''abc''] (\<lambda>content. [1, 2, 3]) 4 32
     = Inr \<lparr>B = 4, T = 32, tokens = [1, 2, 3], current_position = 0\<rparr> \<and>
   next_batch \<lparr>B = 4, T = 32, tokens = [1, 2, 3], current_position = 0\<rparr> = Inl RuntimeError"
  using init_without_length_check
          [of "[''input.txt'' \<mapsto> ''abc'']" "''abc''" 4 32 "\<lambda>content. [1, 2, 3]"]
  by simp

subsection \<open>The cursor invariant\<close>

text \<open>
  Claim C9. If the corpus has at least \<open>B * T + 1\<close> tokens (and \<open>B, T \<ge> 1\<close>), then after
  construction and after any number \<open>n\<close> of \<^verbatim>\<open>next_batch\<close> calls the cursor \<open>c\<close>
  satisfies \<open>0 \<le> c\<close> and \<open>c + B * T + 1 \<le>\<close> corpus length, the corpus is unchanged, and the
  next call returns an input and a target of shape \<open>[B, T]\<close> with \<open>B * T\<close> elements each.
\<close>

theorem cursor_always_leaves_a_window:
  assumes "DataLoaderLite_init fs encode b t = Inr s0" and "0 < b" and "0 < t"
    and "b * t + 1 \<le> int (length (tokens s0))"
  shows "\<exists>s. next_batch_times n s0 = Inr s \<and>
           0 \<le> current_position s \<and>
           current_position s + b * t + 1 \<le> int (length (tokens s0)) \<and>
           tokens s = tokens s0 \<and>
           (\<exists>x y s'. next_batch s = Inr (x, y, s') \<and>
              shape x = [nat b, nat t] \<and> shape y = [nat b, nat t] \<and>
              length (elems x) = nat (b * t) \<and> length (elems y) = nat (b * t))"
proof -
  from assms(1) have s0: "B s0 = b" "T s0 = t" "current_position s0 = 0"
    by (auto simp add: DataLoaderLite_init_def Let_def split: option.splits if_splits)
  have b0: "0 < B s0" and t0: "0 < T s0" using s0 assms by simp_all
  have ok0: "cursor_ok s0" using s0 assms(4) by (simp add: cursor_ok_def)
  from next_batch_times_ok [OF b0 t0 ok0, of n]
  obtain s where s: "next_batch_times n s0 = Inr s" "cursor_ok s"
      "B s = B s0" "T s = T s0" "tokens s = tokens s0"
    by blast
  have b1: "0 < B s" and t1: "0 < T s" using s b0 t0 by simp_all
  from next_batch_keeps_cursor_ok [OF b1 t1 s(2)]
  obtain x y s' where "next_batch s = Inr (x, y, s')"
      "shape x = [nat (B s), nat (T s)]" "shape y = [nat (B s), nat (T s)]"
      "length (elems x) = nat (B s * T s)" "length (elems y) = nat (B s * T s)"
    by blast
  with s s0 show ?thesis by (auto simp add: cursor_ok_def)
qed

theorem cursor_always_leaves_a_window_witness:
  "DataLoaderLite_init [''input.txt'' \<mapsto> ''abc''] (\<lambda>content. [10, 11, 12, 13, 14, 15, 16, 17]) 1 3
     = Inr \<lparr>B = 1, T = 3, tokens = [10, 11, 12, 13, 14, 15, 16, 17], current_position = 0\<rparr> \<and>
   (\<exists>s. next_batch_times 5 \<lparr>B = 1, T = 3, tokens = [10, 11, 12, 13, 14, 15, 16, 17],
                             current_position = 0\<rparr> = Inr s \<and>
        0 \<le> current_position s \<and> current_position s + 1 * 3 + 1 \<le> 8 \<and>
        (\<exists>x y s'. next_batch s = Inr (x, y, s') \<and> shape x = [1, 3] \<and> shape y = [1, 3]))"
proof -
  let ?s0 = "\<lparr>B = 1, T = 3, tokens = [10, 11, 12, 13, 14, 15, 16, 17], current_position = 0\<rparr>"
  have i: "DataLoaderLite_init [''input.txt'' \<mapsto> ''abc''] (\<lambda>content. [10, 11, 12, 13, 14, 15, 16, 17]) 1 3
     = Inr ?s0"
    by (simp add: DataLoaderLite_init_def)
  have l: "(1::int) * 3 + 1 \<le> int (length (tokens ?s0))" by simp
  from cursor_always_leaves_a_window [OF i _ _ l, of 5]
  show ?thesis using i by simp blast
qed

section \<open>Properties of the sampling step\<close>

subsection \<open>The selection on a vocabulary of at least 50 entries\<close>

text \<open>
  The positions that \<open>topk_row\<close> returns are \<open>k\<close> different positions of the row, and
  no entry outside them is larger than an entry at one of them. With at least 50 entries
  per row and a draw among the 50 candidates the step returns one token id per row.
\<close>

lemma topk_row_indices:
  assumes "k \<le> length xs"
  shows "length (snd (topk_row xs k)) = k"
    and "distinct (snd (topk_row xs k))"
    and "set (snd (topk_row xs k)) \<subseteq> {0..<length xs}"
    and "fst (topk_row xs k) = map (\<lambda>i. xs ! i) (snd (topk_row xs k))"
proof -
  let ?ys = "sort_key (\<lambda>i. xs ! i) [0..<length xs]"
  have l: "length ?ys = length xs" by simp
  show "length (snd (topk_row xs k)) = k" using assms by (simp add: topk_row_def Let_def)
  show "distinct (snd (topk_row xs k))" by (simp add: topk_row_def Let_def)
  have "set (take k (rev ?ys)) \<subseteq> set (rev ?ys)" by (rule set_take_subset)
  then show "set (snd (topk_row xs k)) \<subseteq> {0..<length xs}"
    by (simp add: topk_row_def Let_def)
  show "fst (topk_row xs k) = map (\<lambda>i. xs ! i) (snd (topk_row xs k))"
    by (simp add: topk_row_def Let_def)
qed

lemma topk_row_largest:
  assumes "i \<in> set (snd (topk_row xs k))" and "j < length xs"
    and "j \<notin> set (snd (topk_row xs k))"
  shows "xs ! j \<le> xs ! i"
proof -
  let ?f = "\<lambda>i. xs ! i"
  let ?ys = "sort_key ?f [0..<length xs]"
  let ?zs = "rev ?ys"
  have "sorted (map ?f ?ys)" by (rule sorted_sort_key)
  then have "sorted_wrt (\<lambda>a b. ?f a \<le> ?f b) ?ys" by (simp add: sorted_wrt_map)
  then have "sorted_wrt (\<lambda>a b. ?f b \<le> ?f a) ?zs" by (simp add: sorted_wrt_rev)
  then have "sorted_wrt (\<lambda>a b. ?f b \<le> ?f a) (take k ?zs @ drop k ?zs)" by simp
  then have ord: "\<forall>a \<in> set (take k ?zs). \<forall>b \<in> set (drop k ?zs). ?f b \<le> ?f a"
    by (simp only: sorted_wrt_append) blast
  have i: "i \<in> set (take k ?zs)" using assms(1) by (simp add: topk_row_def Let_def)
  have "j \<in> set ?zs" using assms(2) by simp
  then have "j \<in> set (take k ?zs) \<union> set (drop k ?zs)"
    by (metis append_take_drop_id set_append)
  moreover have "j \<notin> set (take k ?zs)" using assms(3) by (simp add: topk_row_def Let_def)
  ultimately have "j \<in> set (drop k ?zs)" by blast
  with ord i show ?thesis by blast
qed


lemma concat_chunk:
  assumes "\<forall>r \<in> set rows. length r = k" and "i < length rows"
  shows "take k (drop (i * k) (concat rows)) = rows ! i"
  using assms
proof (induction rows arbitrary: i)
  case Nil
  then show ?case by simp
next
  case (Cons r rs)
  show ?case
  proof (cases i)
    case 0
    then show ?thesis using Cons.prems by simp
  next
    case (Suc j)
    then have "take k (drop (j * k) (concat rs)) = rs ! j"
      using Cons.IH [of j] Cons.prems by simp
    then show ?thesis using Suc Cons.prems by simp
  qed
qed

lemma tensor_rows_concat:
  assumes "\<forall>r \<in> set rows. length r = k"
  shows "tensor_rows \<lparr>shape = [length rows, k], elems = concat rows\<rparr> = rows"
proof -
  have "map (\<lambda>i. take k (drop (i * k) (concat rows))) [0..<length rows]
      = map (\<lambda>i. rows ! i) [0..<length rows]"
    using concat_chunk [OF assms] by simp
  then show ?thesis by (simp add: tensor_rows_def map_nth)
qed

lemma tensor_rows_matrix:
  assumes "shape p = [b, v]" and "length (elems p) = b * v"
  shows "length (tensor_rows p) = b" and "\<forall>r \<in> set (tensor_rows p). length r = v"
proof -
  show "length (tensor_rows p) = b" using assms by (simp add: tensor_rows_def)
  have "length (take v (drop (i * v) (elems p))) = v" if "i < b" for i
  proof -
    from that have "Suc i \<le> b" by simp
    then have "Suc i * v \<le> b * v" by (rule mult_le_mono1)
    then show ?thesis using assms(2) by simp
  qed
  then show "\<forall>r \<in> set (tensor_rows p). length r = v"
    using assms by (auto simp add: tensor_rows_def)
qed

lemma sample_step_draws_top_tokens:
  assumes "shape probs = [b, v]" and "length (elems probs) = b * v" and "50 \<le> v"
    and "\<And>w. draw w < 50"
  shows "\<exists>ids. sample_step draw probs = Inr ids \<and> shape ids = [b, 1] \<and>
           length (elems ids) = b \<and> (\<forall>t \<in> set (elems ids). t < v)"
proof -
  let ?fs = "map (fst \<circ> (\<lambda>r. topk_row r 50)) (tensor_rows probs)"
  let ?ss = "map (snd \<circ> (\<lambda>r. topk_row r 50)) (tensor_rows probs)"
  let ?tp = "\<lparr>shape = [b, 50], elems = concat ?fs\<rparr>"
  let ?ti = "\<lparr>shape = [b, 50], elems = concat ?ss\<rparr>"
  note rows = tensor_rows_matrix [OF assms(1,2)]
  have tk: "topk probs 50 = Inr (?tp, ?ti)"
    using assms(1,3) by (simp add: topk_def Let_def)
  have len: "length ?fs = b" "length ?ss = b" using rows(1) by simp_all
  have k: "50 \<le> length r" if "r \<in> set (tensor_rows probs)" for r
    using rows(2) that assms(3) by simp
  have ls: "\<forall>r \<in> set ?ss. length r = 50"
    using k topk_row_indices(1) by auto
  have lf: "\<forall>r \<in> set ?fs. length r = 50"
  proof
    fix r
    assume "r \<in> set ?fs"
    then obtain row where row: "row \<in> set (tensor_rows probs)" "r = fst (topk_row row 50)"
      by auto
    have "length (fst (topk_row row 50)) = length (snd (topk_row row 50))"
      using topk_row_indices(4) [OF k [OF row(1)]] by (metis length_map)
    then show "length r = 50" using topk_row_indices(1) [OF k [OF row(1)]] row(2) by simp
  qed
  have rp: "tensor_rows ?tp = ?fs"
    using tensor_rows_concat [OF lf] len(1) by simp
  have ri: "tensor_rows ?ti = ?ss"
    using tensor_rows_concat [OF ls] len(2) by simp
  let ?ix = "multinomial draw ?tp"
  have ixs: "shape ?ix = [b, 1]" by (simp add: multinomial_def)
  have ixl: "length (elems ?ix) = b" by (simp add: multinomial_def rp rows(1))
  have drawn: "\<forall>i \<in> set (elems ?ix). i < 50"
    unfolding multinomial_def using assms(4) by auto
  have inrange: "\<not> list_ex (\<lambda>(r, i). length r \<le> i) (zip ?ss (elems ?ix))"
  proof -
    have "length r > i" if "(r, i) \<in> set (zip ?ss (elems ?ix))" for r i
    proof -
      from that have "r \<in> set ?ss" and "i \<in> set (elems ?ix)"
        by (auto dest: set_zip_leftD set_zip_rightD)
      then have "length r = 50" and "i < 50" using ls drawn by blast+
      then show ?thesis by simp
    qed
    then show ?thesis unfolding list_ex_iff by fastforce
  qed
  let ?ids = "\<lparr>shape = shape ?ix, elems = map (\<lambda>(r, i). r ! i) (zip ?ss (elems ?ix))\<rparr>"
  have g: "gather_last ?ti ?ix = Inr ?ids"
    using inrange by (simp only: gather_last_def ri Let_def ixl len if_False simp_thms)
  have st: "sample_step draw probs = Inr ?ids"
    by (simp only: sample_step_def tk g sum.case prod.case)
  have small: "t < v" if "t \<in> set (elems ?ids)" for t
  proof -
    from that obtain r i where ri': "(r, i) \<in> set (zip ?ss (elems ?ix))" and t: "t = r ! i"
      by auto
    from ri' have r: "r \<in> set ?ss" and i: "i \<in> set (elems ?ix)"
      by (auto dest: set_zip_leftD set_zip_rightD)
    from r obtain row where row: "row \<in> set (tensor_rows probs)" "r = snd (topk_row row 50)"
      by auto
    have "length r = 50" using r ls by blast
    moreover have "i < 50" using i drawn by blast
    ultimately have "r ! i \<in> set r" by simp
    moreover have "set r \<subseteq> {0..<length row}"
      using topk_row_indices(3) [OF k [OF row(1)]] row(2) by simp
    moreover have "length row = v" using rows(2) row(1) by blast
    ultimately show ?thesis using t by auto
  qed
  have "length (elems ?ids) = b" using len ixl by simp
  with st small ixs show ?thesis by auto
qed

subsection \<open>The selection on a smaller vocabulary\<close>

text \<open>
  With a vocabulary of 32 the step fails: \<^verbatim>\<open>torch.topk\<close> is asked for 50 entries of a
  row of 32.
\<close>

theorem sample_step_fails_on_small_vocabulary:
  "sample_step (\<lambda>w. 0) \<lparr>shape = [5, 32], elems = replicate 160 (1 / 32 :: real)\<rparr>
     = Inl RuntimeError"
  by (simp add: sample_step_def topk_def)


text \<open>
  Claim C8, as the code has it. The top-k of the sampling step is the constant 50 and is
  not clamped: for probabilities of shape \<open>[B, v]\<close> with \<open>v < 50\<close> the step fails with the
  runtime error of \<^verbatim>\<open>torch.topk\<close>, and with \<open>v \<ge> 50\<close> the top-k selection returns 50
  entries per row.
\<close>

theorem topk_is_not_clamped:
  assumes "shape probs = [b, v]"
  shows "(v < 50 \<longrightarrow> sample_step draw probs = Inl RuntimeError) \<and>
         (50 \<le> v \<longrightarrow> (\<exists>tp ti. topk probs 50 = Inr (tp, ti) \<and>
                        shape tp = [b, 50] \<and> shape ti = [b, 50]))"
  using assms by (simp add: sample_step_def topk_def Let_def)

theorem topk_is_not_clamped_witness:
  "shape \<lparr>shape = [5, 32], elems = replicate 160 (1 / 32 :: real)\<rparr> = [5, 32] \<and>
   (32::nat) < 50 \<and>
   sample_step (\<lambda>w. 0) \<lparr>shape = [5, 32], elems = replicate 160 (1 / 32 :: real)\<rparr>
     = Inl RuntimeError"
  using topk_is_not_clamped
          [of "\<lparr>shape = [5, 32], elems = replicate 160 (1 / 32 :: real)\<rparr>" 5 32 "\<lambda>w. 0"]
  by simp


section \<open>Properties of GPT.\_\_init\_\_\<close>

subsection \<open>The initialization pass\<close>

lemma init_weights_name_unbound:
  "lookup_name (init_locals @ module_globals) ''_init_weights'' = Inl (NameError ''_init_weights'')"
  by (simp add: lookup_name_def init_locals_def module_globals_def)

lemma init_weights_raises: "init_weights m s = Inl (AttributeError ''nn'')"
  by (simp add: init_weights_def)

lemma GPT_init_cases:
  "GPT_init config =
     (case build_modules config of
        Inl e \<Rightarrow> Inl e
      | Inr s \<Rightarrow> (case tie_weights s of
                    Inl e \<Rightarrow> Inl e
                  | Inr s' \<Rightarrow> Inl (NameError ''_init_weights'')))"
  by (simp add: GPT_init_def bind_err_def init_weights_name_unbound split: sum.splits)

lemma GPT_init_never_returns: "GPT_init config \<noteq> Inr m"
  by (simp add: GPT_init_cases split: sum.splits)


subsection \<open>Configurations whose modules can be built\<close>

lemma Block_init_ok:
  assumes "config_ok config"
  shows "\<exists>s'. Block_init name config s = Inr s'"
  using assms
  by (simp add: config_ok_def Block_init_def MLP_init_def CausalSelfAttention_init_def
      nn_LayerNorm_def nn_Linear_def new_tensor_def add_module_def bind_err_def)

lemma Block_list_ok:
  assumes "config_ok config"
  shows "\<exists>s'. Block_list name config is s = Inr s'"
proof (induction "is" arbitrary: s)
  case Nil
  then show ?case by simp
next
  case (Cons i "is")
  from Block_init_ok [OF assms] obtain s1
    where "Block_init (name @ ''.'' @ str_nat i) config s = Inr s1" by blast
  with Cons.IH [of s1] show ?case by (simp add: bind_err_def)
qed

lemma build_modules_ok:
  assumes "config_ok config"
  shows "\<exists>s a. build_modules config = Inr s \<and> map_of (params s) ''lm_head.weight'' = Some a"
proof -
  from assms have d: "0 \<le> block_size config" "0 \<le> vocab_size config" "0 \<le> n_embd config"
    by (simp_all add: config_ok_def)
  obtain s1 where s1: "nn_Embedding ''transformer.wte'' (vocab_size config) (n_embd config) empty_state = Inr s1"
    using d by (simp add: nn_Embedding_def new_tensor_def add_module_def bind_err_def)
  obtain s2 where s2: "nn_Embedding ''transformer.wpe'' (block_size config) (n_embd config) s1 = Inr s2"
    using d by (simp add: nn_Embedding_def new_tensor_def add_module_def bind_err_def)
  obtain s3 where s3: "Block_list ''transformer.h'' config [0..<nat (n_layer config)] s2 = Inr s3"
    using Block_list_ok [OF assms] by blast
  obtain s4 where s4: "add_module ''transformer.h'' ModuleList s3 = Inr s4"
    by (simp add: add_module_def)
  obtain s5 where s5: "nn_LayerNorm ''transformer.ln_f'' (n_embd config) s4 = Inr s5"
    using d by (simp add: nn_LayerNorm_def new_tensor_def add_module_def bind_err_def)
  obtain s6 where s6: "add_module ''transformer'' ModuleDict s5 = Inr s6"
    by (simp add: add_module_def)
  have "\<exists>s a. nn_Linear ''lm_head'' (n_embd config) (vocab_size config) False s6 = Inr s
            \<and> map_of (params s) ''lm_head.weight'' = Some a"
    using d by (cases "map_of (params s6) ''lm_head.weight''")
      (simp_all add: nn_Linear_def new_tensor_def add_module_def bind_err_def map_add_def)
  then show ?thesis
    by (simp add: build_modules_def bind_err_def s1 s2 s3 s4 s5 s6)
qed

lemma GPT_init_NameError:
  assumes "config_ok config"
  shows "GPT_init config = Inl (NameError ''_init_weights'')"
proof -
  from build_modules_ok [OF assms] obtain s a
    where "build_modules config = Inr s" "map_of (params s) ''lm_head.weight'' = Some a" by blast
  then show ?thesis by (simp add: GPT_init_cases tie_weights_def)
qed


text \<open>
  Claim C1. The claim is that the initialization pass runs once at construction. In the
  code it never runs: for the default configuration, which line 229 constructs, the
  constructor raises the NameError of line 94, and for no configuration at all does the
  constructor return a model.
\<close>

theorem GPT_init_default_raises:
  "GPT_init GPTConfig_default = Inl (NameError ''_init_weights'') \<and>
   (\<forall>config m. GPT_init config \<noteq> Inr m)"
  using GPT_init_NameError [of GPTConfig_default] GPT_init_never_returns
  by (simp add: config_ok_def GPTConfig_default_def)


subsection \<open>Weight tying\<close>
















lemma tied_write_is_seen:
  assumes "map_of sd n1 = Some a" and "map_of sd n2 = Some a"
    and "dict_get sd n1 = Inr a1" and "dict_get sd n2 = Inr a2"
  shows "(h(a1 := v)) a2 = v"
  using assms by (simp add: dict_get_def)




section \<open>Properties of GPT.from\_pretrained\<close>

subsection \<open>The model type and the configuration\<close>

lemma from_pretrained_rejects_unknown_type:
  assumes "model_type \<notin> set model_types"
  shows "from_pretrained hub fill model_type = Inl AssertionError"
  using assms by (simp add: from_pretrained_def)

lemma pretrained_config_values:
  "pretrained_config ''gpt2'' =
     Inr \<lparr>block_size = 1024, vocab_size = 50257, n_layer = 12, n_head = 12, n_embd = 768\<rparr>"
  "pretrained_config ''gpt2-medium'' =
     Inr \<lparr>block_size = 1024, vocab_size = 50257, n_layer = 24, n_head = 16, n_embd = 1024\<rparr>"
  "pretrained_config ''gpt2-large'' =
     Inr \<lparr>block_size = 1024, vocab_size = 50257, n_layer = 36, n_head = 20, n_embd = 1280\<rparr>"
  "pretrained_config ''gpt2-xl'' =
     Inr \<lparr>block_size = 1024, vocab_size = 50257, n_layer = 48, n_head = 25, n_embd = 1600\<rparr>"
  by (simp_all add: pretrained_config_def config_args_def dict_get_def bind_err_def)

lemma pretrained_config_sizes:
  assumes "model_type \<in> set model_types"
  shows "\<exists>config. pretrained_config model_type = Inr config \<and> config_ok config \<and>
           vocab_size config = 50257 \<and> block_size config = 1024"
proof -
  from assms consider "model_type = ''gpt2''" | "model_type = ''gpt2-medium''"
    | "model_type = ''gpt2-large''" | "model_type = ''gpt2-xl''"
    by (auto simp add: model_types_def)
  then show ?thesis
    by cases (simp_all add: pretrained_config_values config_ok_def)
qed

lemma from_pretrained_known_type:
  assumes "model_type \<in> set model_types"
  shows "from_pretrained hub fill model_type = Inl (NameError ''_init_weights'')"
proof -
  from pretrained_config_sizes [OF assms] obtain config
    where "pretrained_config model_type = Inr config" "config_ok config" by blast
  then show ?thesis
    using assms by (simp add: from_pretrained_def bind_err_def GPT_init_NameError)
qed


text \<open>
  Claim C10. A model type outside the four names fails the assertion of line 128
  (\<open>from_pretrained_rejects_unknown_type\<close>), and for each of the four names the
  configuration has \<open>vocab_size = 50257\<close> and \<open>block_size = 1024\<close>
  (\<open>pretrained_config_sizes\<close>). But the claim is that the model is then constructed, and
  for each of the four names the constructor call of line 142 raises the NameError of
  line 94.
\<close>

theorem from_pretrained_raises_NameError:
  "from_pretrained hub fill ''gpt2'' = Inl (NameError ''_init_weights'') \<and>
   from_pretrained hub fill ''gpt2-medium'' = Inl (NameError ''_init_weights'') \<and>
   from_pretrained hub fill ''gpt2-large'' = Inl (NameError ''_init_weights'') \<and>
   from_pretrained hub fill ''gpt2-xl'' = Inl (NameError ''_init_weights'')"
proof -
  have "''gpt2'' \<in> set model_types" "''gpt2-medium'' \<in> set model_types"
    "''gpt2-large'' \<in> set model_types" "''gpt2-xl'' \<in> set model_types"
    by (simp_all add: model_types_def)
  then show ?thesis by (simp add: from_pretrained_known_type)
qed


subsection \<open>One parameter of the alignment loop\<close>

lemma is_transposed_suffixes:
  "is_transposed k =
     (endswith k ''attn.c_attn.weight'' \<or> endswith k ''attn.c_proj.weight'' \<or>
      endswith k ''mlp.c_fc.weight'' \<or> endswith k ''mlp.c_proj.weight'')"
  by (simp add: is_transposed_def transposed_def)

lemma dict_get_Some: "map_of d k = Some v \<Longrightarrow> dict_get d k = Inr v"
  by (simp add: dict_get_def)

lemma dict_get_None: "map_of d k = None \<Longrightarrow> dict_get d k = Inl (KeyError k)"
  by (simp add: dict_get_def)

lemma tensor_copy_eq:
  "tensor_copy (dst :: 'a tensor) src = \<lparr>shape = shape dst, elems = elems src\<rparr>"
  by (cases dst) (simp add: tensor_copy_def)

lemma copy_param_transposed:
  assumes "is_transposed k" "map_of sd_hf k = Some src" "map_of sd k = Some a"
  shows "copy_param sd sd_hf h k =
           (if rev (shape src) \<noteq> shape (h a) then Inl AssertionError
            else bind_err (tensor_t src) (\<lambda>st. Inr (h(a := tensor_copy (h a) st))))"
  using assms by (simp add: copy_param_def bind_err_def dict_get_Some)

lemma copy_param_direct:
  assumes "\<not> is_transposed k" "map_of sd_hf k = Some src" "map_of sd k = Some a"
  shows "copy_param sd sd_hf h k =
           (if shape src \<noteq> shape (h a) then Inl AssertionError
            else Inr (h(a := tensor_copy (h a) src)))"
  using assms by (simp add: copy_param_def bind_err_def dict_get_Some)

lemma copy_param_missing:
  assumes "map_of sd_hf k = Some src" "map_of sd k = None"
  shows "copy_param sd sd_hf h k = Inl (KeyError k)"
  using assms by (simp add: copy_param_def bind_err_def dict_get_Some dict_get_None)

lemma copy_param_unbound:
  assumes "map_of sd_hf k = None"
  shows "copy_param sd sd_hf h k = Inl (KeyError k)"
  using assms
  by (cases "is_transposed k") (simp_all add: copy_param_def bind_err_def dict_get_None)

lemma copy_param_Inr:
  assumes "copy_param sd sd_hf h k = Inr h'"
  shows "\<exists>src a. map_of sd_hf k = Some src \<and> map_of sd k = Some a \<and>
           (if is_transposed k
            then rev (shape src) = shape (h a) \<and>
                 (\<exists>st. tensor_t src = Inr st \<and>
                       h' = h(a := \<lparr>shape = shape (h a), elems = elems st\<rparr>))
            else shape src = shape (h a) \<and>
                 h' = h(a := \<lparr>shape = shape (h a), elems = elems src\<rparr>))"
proof -
  obtain src where src: "map_of sd_hf k = Some src"
    using assms by (cases "map_of sd_hf k") (simp_all add: copy_param_unbound)
  obtain a where a: "map_of sd k = Some a"
    using assms src
    by (cases "map_of sd k") (simp_all add: copy_param_missing)
  show ?thesis
  proof (cases "is_transposed k")
    case True
    from assms have "rev (shape src) = shape (h a) \<and>
        (\<exists>st. tensor_t src = Inr st \<and> h' = h(a := tensor_copy (h a) st))"
      unfolding copy_param_transposed [OF True src a]
      by (cases "tensor_t src") (auto simp add: bind_err_def split: if_splits)
    then show ?thesis using True src a by (auto simp add: tensor_copy_eq)
  next
    case False
    from assms have "shape src = shape (h a) \<and> h' = h(a := tensor_copy (h a) src)"
      unfolding copy_param_direct [OF False src a] by (auto split: if_splits)
    then show ?thesis using False src a by (auto simp add: tensor_copy_eq)
  qed
qed

lemma copy_param_keeps_shapes:
  assumes "copy_param sd sd_hf h k = Inr h'"
  shows "shape (h' b) = shape (h b)"
  using copy_param_Inr [OF assms] by (auto split: if_splits)

lemma copy_param_Inl:
  assumes "copy_param sd sd_hf h k = Inl e"
  shows "e = AssertionError \<or> e = RuntimeError \<or>
         (e = KeyError k \<and> (map_of sd_hf k = None \<or> map_of sd k = None))"
proof (cases "map_of sd_hf k")
  case None
  then show ?thesis using assms by (simp add: copy_param_unbound)
next
  case (Some src)
  show ?thesis
  proof (cases "map_of sd k")
    case None
    then show ?thesis using assms copy_param_missing [OF Some None] by simp
  next
    case (Some a)
    show ?thesis
    proof (cases "is_transposed k")
      case True
      have "tensor_t src = Inl e' \<Longrightarrow> e' = RuntimeError" for e'
        by (auto simp add: tensor_t_def split: list.splits)
      then show ?thesis
        using assms unfolding copy_param_transposed [OF True \<open>map_of sd_hf k = Some src\<close> Some]
        by (cases "tensor_t src") (auto simp add: bind_err_def split: if_splits)
    next
      case False
      then show ?thesis
        using assms unfolding copy_param_direct [OF False \<open>map_of sd_hf k = Some src\<close> Some]
        by (auto split: if_splits)
    qed
  qed
qed


subsection \<open>The alignment loop\<close>


lemma copy_params_Inl:
  assumes "copy_params sd sd_hf ks h = Inl e"
  shows "e = AssertionError \<or> e = RuntimeError \<or>
         (\<exists>k. k \<in> set ks \<and> e = KeyError k \<and> (map_of sd_hf k = None \<or> map_of sd k = None))"
  using assms
proof (induction ks arbitrary: h)
  case Nil
  then show ?case by simp
next
  case (Cons k ks)
  show ?case
  proof (cases "copy_param sd sd_hf h k")
    case (Inl e')
    with Cons.prems have "e' = e" by (simp add: bind_err_def)
    with copy_param_Inl [OF Inl] show ?thesis by auto
  next
    case (Inr h1)
    with Cons.prems have "copy_params sd sd_hf ks h1 = Inl e" by (simp add: bind_err_def)
    from Cons.IH [OF this] show ?thesis by auto
  qed
qed

lemma copy_params_fatal:
  assumes "k \<in> set ks"
    and "\<And>h' :: 'a heap. (\<forall>b. shape (h' b) = shape (h b)) \<Longrightarrow>
           \<exists>e. copy_param sd sd_hf h' k = Inl e"
  shows "\<exists>e. copy_params sd sd_hf ks h = Inl e"
  using assms
proof (induction ks arbitrary: h)
  case Nil
  then show ?case by simp
next
  case (Cons k' ks)
  show ?case
  proof (cases "copy_param sd sd_hf h k'")
    case (Inl e)
    then show ?thesis by (simp add: bind_err_def)
  next
    case (Inr h1)
    have same: "shape (h1 b) = shape (h b)" for b
      using copy_param_keeps_shapes [OF Inr] .
    have "k \<noteq> k'"
    proof
      assume "k = k'"
      with Cons.prems(2) [of h] Inr show False by simp
    qed
    with Cons.prems(1) have mem: "k \<in> set ks" by simp
    have "\<exists>e. copy_params sd sd_hf ks h1 = Inl e"
    proof (rule Cons.IH [OF mem])
      fix h' :: "'a heap"
      assume "\<forall>b. shape (h' b) = shape (h1 b)"
      then have "\<forall>b. shape (h' b) = shape (h b)" using same by simp
      then show "\<exists>e. copy_param sd sd_hf h' k = Inl e" by (rule Cons.prems(2))
    qed
    then show ?thesis using Inr by (simp add: bind_err_def)
  qed
qed







lemma foreign_keys_subset: "set (foreign_keys sd_hf) \<subseteq> fst ` set sd_hf"
  by (auto simp add: foreign_keys_def)

lemma foreign_key_bound:
  assumes "k \<in> set (foreign_keys sd_hf)"
  shows "\<exists>src. map_of sd_hf k = Some src"
proof -
  from assms foreign_keys_subset have "k \<in> fst ` set sd_hf" by blast
  then show ?thesis by (cases "map_of sd_hf k") (auto simp add: map_of_eq_None_iff)
qed

lemma foreign_key_not_model_key:
  assumes "k \<in> set (foreign_keys sd_hf)" "k \<notin> set (model_keys sd)"
  shows "map_of sd k = None"
proof -
  from assms(1) have "\<not> endswith k ''.attn.bias''" by (simp add: foreign_keys_def)
  with assms(2) have "k \<notin> fst ` set sd" by (auto simp add: model_keys_def)
  then show ?thesis by (simp add: map_of_eq_None_iff)
qed


subsection \<open>Transposition\<close>





subsection \<open>Names, on an example\<close>

lemma example_model_keys:
  "model_keys example_sd =
     [''transformer.wte.weight'', ''transformer.h.0.attn.c_attn.weight'', ''lm_head.weight'']"
  by (simp add: model_keys_def example_sd_def endswith_def)

lemma example_foreign_keys:
  "foreign_keys example_sd_hf =
     [''transformer.wte.weight'', ''transformer.h.0.attn.c_attn.weight'', ''lm_head.weight'']"
  "foreign_keys example_sd_hf_renamed =
     [''transformer.wte.weight'', ''transformer.h.0.attn.c_attn.weight'', ''head.weight'']"
  "foreign_keys example_sd_hf_short = [''transformer.wte.weight'']"
  by (simp_all add: foreign_keys_def example_sd_hf_def example_sd_hf_renamed_def
      example_sd_hf_short_def endswith_def)



text \<open>
  Claim C4. Let the model's and the foreign \<^verbatim>\<open>state_dict\<close> have distinct keys, as
  dictionaries do, and compare the two name sets after the mask buffers
  (\<^verbatim>\<open>.attn.bias\<close>) and the foreign \<^verbatim>\<open>.attn.masked_bias\<close> entries are dropped. If
  the sets differ in size, the alignment fails with the AssertionError of line 158. If
  the sets differ at all, the alignment fails: with an AssertionError, with the KeyError
  of a foreign name that the model does not have, or with a RuntimeError of
  \<^verbatim>\<open>t()\<close>.
\<close>

theorem align_name_mismatch_is_fatal:
  assumes "distinct (map fst sd)" and "distinct (map fst sd_hf)"
  shows "(card (set (foreign_keys sd_hf)) \<noteq> card (set (model_keys sd)) \<longrightarrow>
            align sd sd_hf h = Inl AssertionError) \<and>
         (set (foreign_keys sd_hf) \<noteq> set (model_keys sd) \<longrightarrow>
            (\<exists>e. align sd sd_hf h = Inl e \<and>
               (e = AssertionError \<or> e = RuntimeError \<or>
                (\<exists>k. e = KeyError k \<and> k \<in> set (foreign_keys sd_hf) \<and>
                     k \<notin> set (model_keys sd)))))"
proof -
  let ?fk = "foreign_keys sd_hf" and ?mk = "model_keys sd"
  have dfk: "distinct ?fk" using assms(2) by (simp add: foreign_keys_def)
  have dmk: "distinct ?mk" using assms(1) by (simp add: model_keys_def)
  have sizes: "align sd sd_hf h = Inl AssertionError" if "card (set ?fk) \<noteq> card (set ?mk)"
  proof -
    from that have "length ?fk \<noteq> length ?mk"
      using dfk dmk by (simp add: distinct_card)
    then show ?thesis by (simp add: align_def)
  qed
  have names: "\<exists>e. align sd sd_hf h = Inl e \<and>
               (e = AssertionError \<or> e = RuntimeError \<or>
                (\<exists>k. e = KeyError k \<and> k \<in> set ?fk \<and> k \<notin> set ?mk))"
    if diff: "set ?fk \<noteq> set ?mk"
  proof (cases "length ?fk = length ?mk")
    case False
    then show ?thesis by (simp add: align_def)
  next
    case True
    have "\<not> set ?fk \<subseteq> set ?mk"
    proof
      assume sub: "set ?fk \<subseteq> set ?mk"
      have "card (set ?mk) \<le> card (set ?fk)"
        using True dfk card_length [of ?mk] by (simp add: distinct_card)
      with sub have "set ?fk = set ?mk" by (simp add: card_seteq)
      with diff show False by simp
    qed
    then obtain k where k: "k \<in> set ?fk" "k \<notin> set ?mk" by blast
    from foreign_key_bound [OF k(1)] obtain src where src: "map_of sd_hf k = Some src" by blast
    have none: "map_of sd k = None" using foreign_key_not_model_key [OF k] .
    have "\<exists>e. copy_params sd sd_hf ?fk h = Inl e"
      using copy_params_fatal [OF k(1)] copy_param_missing [OF src none] by blast
    then obtain e where e: "copy_params sd sd_hf ?fk h = Inl e" by blast
    have "e = AssertionError \<or> e = RuntimeError \<or>
        (\<exists>k. e = KeyError k \<and> k \<in> set ?fk \<and> k \<notin> set ?mk)"
    proof -
      from copy_params_Inl [OF e] consider "e = AssertionError" | "e = RuntimeError"
        | k' where "k' \<in> set ?fk" "e = KeyError k'"
            "map_of sd_hf k' = None \<or> map_of sd k' = None"
        by blast
      then show ?thesis
      proof cases
        case 1
        then show ?thesis by simp
      next
        case 2
        then show ?thesis by simp
      next
        case 3
        from foreign_key_bound [OF 3(1)] 3(3) have "map_of sd k' = None" by auto
        then have "k' \<notin> fst ` set sd" by (simp add: map_of_eq_None_iff)
        then have "k' \<notin> set ?mk" by (auto simp add: model_keys_def)
        with 3 show ?thesis by blast
      qed
    qed
    with e True show ?thesis by (simp add: align_def)
  qed
  from sizes names show ?thesis by blast
qed

theorem align_name_mismatch_is_fatal_witness:
  "distinct (map fst example_sd) \<and>
   distinct (map fst example_sd_hf_renamed) \<and> distinct (map fst example_sd_hf_short) \<and>
   card (set (foreign_keys example_sd_hf_short)) \<noteq> card (set (model_keys example_sd)) \<and>
   align example_sd example_sd_hf_short example_heap = Inl AssertionError \<and>
   card (set (foreign_keys example_sd_hf_renamed)) = card (set (model_keys example_sd)) \<and>
   set (foreign_keys example_sd_hf_renamed) \<noteq> set (model_keys example_sd) \<and>
   (\<exists>e. align example_sd example_sd_hf_renamed example_heap = Inl e)"
proof -
  have d: "distinct (map fst example_sd)" "distinct (map fst example_sd_hf_renamed)"
      "distinct (map fst example_sd_hf_short)"
    by (simp_all add: example_sd_def example_sd_hf_renamed_def example_sd_hf_short_def)
  have c1: "card (set (foreign_keys example_sd_hf_short)) \<noteq> card (set (model_keys example_sd))"
    by (simp add: example_model_keys example_foreign_keys)
  have c2: "card (set (foreign_keys example_sd_hf_renamed)) = card (set (model_keys example_sd))"
    by (simp add: example_model_keys example_foreign_keys)
  have "''head.weight'' \<in> set (foreign_keys example_sd_hf_renamed)"
      "''head.weight'' \<notin> set (model_keys example_sd)"
    by (simp_all add: example_model_keys example_foreign_keys)
  then have s: "set (foreign_keys example_sd_hf_renamed) \<noteq> set (model_keys example_sd)"
    by blast
  from align_name_mismatch_is_fatal [OF d(1) d(3), of example_heap] c1
  have a1: "align example_sd example_sd_hf_short example_heap = Inl AssertionError" by blast
  from align_name_mismatch_is_fatal [OF d(1) d(2), of example_heap] s
  have a2: "\<exists>e. align example_sd example_sd_hf_renamed example_heap = Inl e" by blast
  from d c1 c2 s a1 a2 show ?thesis by blast
qed


subsection \<open>Shapes\<close>




end
